theory Spec2Isabelle
  imports Main "HOL-Library.Word"
begin

section \<open>The data model of \<open>etl.py\<close>\<close>

text \<open>
  A Spark DataFrame is modelled as the list of its rows, in one fixed order (Spark gives no
  order guarantee, and nothing below depends on a particular one). Every column read from
  JSON is nullable, so a column value is an \<open>option\<close>, with \<open>None\<close> for SQL's null.
  Columns of type double are kept abstract (type variable \<open>'f\<close>).
\<close>

record 'f song_record =
  song_id :: "string option"
  title :: "string option"
  artist_id :: "string option"
  artist_name :: "string option"
  artist_location :: "string option"
  artist_latitude :: "'f option"
  artist_longitude :: "'f option"
  year :: "int option"
  duration :: "'f option"

record log_event =
  userId :: "string option"
  firstName :: "string option"
  lastName :: "string option"
  gender :: "string option"
  level :: "string option"
  ts :: "int option"
  page :: "string option"
  song :: "string option"
  artist :: "string option"
  sessionId :: "int option"
  location :: "string option"
  userAgent :: "string option"

text \<open>The rows of the five output tables, named by the columns they are written with.\<close>

record 'f songs_row =
  s_song_id :: "string option"
  s_title :: "string option"
  s_artist_id :: "string option"
  s_year :: "int option"
  s_duration :: "'f option"

record 'f artists_row =
  a_artist_id :: "string option"
  a_name :: "string option"
  a_location :: "string option"
  a_latitude :: "'f option"
  a_longitude :: "'f option"

record users_row =
  u_user_id :: "string option"
  u_first_name :: "string option"
  u_last_name :: "string option"
  u_gender :: "string option"
  u_level :: "string option"

record ('dt, 'n) time_row =
  t_start_time :: 'dt
  t_hour :: 'n
  t_day :: 'n
  t_week :: 'n
  t_month :: 'n
  t_year :: 'n
  t_weekday :: 'n

record ('dt, 'n) songplays_row =
  f_songplay_id :: "64 word"
  f_start_time :: 'dt
  f_user_id :: "string option"
  f_level :: "string option"
  f_song_id :: "string option"
  f_artist_id :: "string option"
  f_session_id :: "int option"
  f_location :: "string option"
  f_user_agent :: "string option"
  f_year :: 'n
  f_month :: 'n

text \<open>
  The date functions of \<open>pyspark.sql.functions\<close> that the program calls. They belong to
  the engine, and their results depend on the session time zone, so they are parameters
  of the model: \<open>'dt\<close> is the value \<open>from_unixtime\<close> produces and \<open>'n\<close> the value of a
  calendar field.
\<close>

record ('dt, 'n) sql_functions =
  from_unixtime :: "string option \<Rightarrow> 'dt"
  hour :: "'dt \<Rightarrow> 'n"
  dayofmonth :: "'dt \<Rightarrow> 'n"
  weekofyear :: "'dt \<Rightarrow> 'n"
  month :: "'dt \<Rightarrow> 'n"
  year_of :: "'dt \<Rightarrow> 'n"
  dayofweek :: "'dt \<Rightarrow> 'n"

text \<open>A \<open>DataFrameWriter\<close> call: destination, save mode and the \<open>partitionBy\<close> columns.\<close>

record write_op =
  w_path :: string
  w_mode :: string
  w_partitionBy :: "string list"

datatype error = TypeError

datatype pyval = PyNone | PyInt int | PyStr string

datatype pyfloat = PyFloat int int

section \<open>Relational operators\<close>

text \<open>
  \<open>dropDuplicates()\<close> keeps one row of every group of equal rows: \<^const>\<open>remdups\<close>.
  \<open>join(..., how='inner')\<close> pairs every left row with every right row that satisfies the
  condition; \<open>how='left'\<close> keeps a left row without a partner, with nulls on the right.
\<close>

definition inner_join :: "('a \<Rightarrow> 'b \<Rightarrow> bool) \<Rightarrow> 'a list \<Rightarrow> 'b list \<Rightarrow> ('a \<times> 'b) list" where
  "inner_join c ls rs = concat (map (\<lambda>l. map (Pair l) (filter (c l) rs)) ls)"

definition left_join :: "('a \<Rightarrow> 'b \<Rightarrow> bool) \<Rightarrow> 'a list \<Rightarrow> 'b list \<Rightarrow> ('a \<times> 'b option) list" where
  "left_join c ls rs =
     concat (map (\<lambda>l. case filter (c l) rs of
                         [] \<Rightarrow> [(l, None)]
                       | m # ms \<Rightarrow> map (\<lambda>r. (l, Some r)) (m # ms)) ls)"

text \<open>The aggregate \<open>max\<close> skips nulls and is null on a group without a value.\<close>

fun max_agg :: "int option list \<Rightarrow> int option" where
  "max_agg [] = None"
| "max_agg (None # xs) = max_agg xs"
| "max_agg (Some a # xs) = (case max_agg xs of None \<Rightarrow> Some a | Some b \<Rightarrow> Some (max a b))"

text \<open>
  \<open>monotonically_increasing_id()\<close>: the partition index in the upper 31 bits of a 64-bit
  value and the record number within the partition in the lower 33 bits. How the engine
  cuts a DataFrame into partitions is its own choice; the model takes the sizes of the
  leading partitions as a parameter, the rest of the rows forming a last partition.
\<close>

fun partitions :: "nat list \<Rightarrow> 'a list \<Rightarrow> 'a list list" where
  "partitions [] xs = [xs]"
| "partitions (n # ns) xs = take n xs # partitions ns (drop n xs)"

definition mono_id :: "nat \<Rightarrow> nat \<Rightarrow> 64 word" where
  "mono_id p k = push_bit 33 (word_of_nat p) + word_of_nat k"

definition monotonically_increasing_id :: "'a list list \<Rightarrow> (64 word \<times> 'a) list" where
  "monotonically_increasing_id parts =
     concat (map (\<lambda>(p, part). map (\<lambda>(k, r). (mono_id p k, r)) (enumerate 0 part))
                 (enumerate 0 parts))"

section \<open>The Python lambda \<open>lambda x: str(int(x/1000))\<close>\<close>

text \<open>
  In Python 3, \<open>x/1000\<close> on integers is true division: the quotient correctly rounded
  (to nearest, ties to even) to a binary64 float, a 53-bit significand times a power of
  two. \<open>PyFloat m e\<close> stands for \<open>m * 2 ^ e\<close>. The exponent is found by scaling the
  numerator up, or the denominator up, until the quotient has 53 bits. The model covers
  a non-zero divisor and quotients in the normal range of binary64, which is where a
  64-bit timestamp divided by 1000 lies.
\<close>

definition rne_div :: "int \<Rightarrow> int \<Rightarrow> int" where
  "rne_div n d =
     (let q = n div d; r = n mod d
      in if 2 * r < d then q else if d < 2 * r then q + 1 else if even q then q else q + 1)"

function scale_up :: "int \<Rightarrow> int \<Rightarrow> nat \<Rightarrow> nat" where
  "scale_up n d k = (if n \<le> 0 \<or> 2 ^ 52 * d \<le> n * 2 ^ k then k else scale_up n d (Suc k))"
  by pat_completeness auto
termination
proof (relation "measure (\<lambda>(n, d, k). nat (2 ^ 52 * d - n * 2 ^ k))")
  show "wf (measure (\<lambda>(n, d, k). nat (2 ^ 52 * d - n * 2 ^ k)))"
    by simp
next
  fix n d :: int and k :: nat
  assume a: "\<not> (n \<le> 0 \<or> 2 ^ 52 * d \<le> n * 2 ^ k)"
  then have "0 < n * 2 ^ k"
    by simp
  with a show "((n, d, Suc k), (n, d, k)) \<in> measure (\<lambda>(n, d, k). nat (2 ^ 52 * d - n * 2 ^ k))"
    by simp
qed

function scale_down :: "int \<Rightarrow> int \<Rightarrow> nat \<Rightarrow> nat" where
  "scale_down n d j = (if d \<le> 0 \<or> n < 2 ^ 53 * d * 2 ^ j then j else scale_down n d (Suc j))"
  by pat_completeness auto
termination
proof (relation "measure (\<lambda>(n, d, j). nat (n + 1 - 2 ^ 53 * d * 2 ^ j))")
  show "wf (measure (\<lambda>(n, d, j). nat (n + 1 - 2 ^ 53 * d * 2 ^ j)))"
    by simp
next
  fix n d :: int and j :: nat
  assume a: "\<not> (d \<le> 0 \<or> n < 2 ^ 53 * d * 2 ^ j)"
  then have "0 < 2 ^ 53 * d * 2 ^ j"
    by simp
  with a show "((n, d, Suc j), (n, d, j)) \<in> measure (\<lambda>(n, d, j). nat (n + 1 - 2 ^ 53 * d * 2 ^ j))"
    by simp
qed

definition py_truediv :: "int \<Rightarrow> int \<Rightarrow> pyfloat" where
  "py_truediv a b =
     (let n = \<bar>a\<bar>; d = \<bar>b\<bar>; s = sgn a * sgn b
      in if n = 0 then PyFloat 0 0
         else if n < 2 ^ 53 * d
           then (let k = scale_up n d 0 in PyFloat (s * rne_div (n * 2 ^ k) d) (- int k))
           else (let j = scale_down n d 0 in PyFloat (s * rne_div n (d * 2 ^ j)) (int j)))"

text \<open>\<open>int(f)\<close> on a float drops the fraction: truncation towards zero.\<close>

fun py_int :: "pyfloat \<Rightarrow> int" where
  "py_int (PyFloat m e) =
     (if 0 \<le> e then m * 2 ^ nat e else sgn m * (\<bar>m\<bar> div 2 ^ nat (- e)))"

text \<open>\<open>str(i)\<close> on an integer: its decimal digits, after a minus sign when negative.\<close>

definition digit_chr :: "nat \<Rightarrow> char" where
  "digit_chr d = ''0123456789'' ! d"

fun digits10 :: "nat \<Rightarrow> string" where
  "digits10 n = (if n < 10 then [digit_chr n] else digits10 (n div 10) @ [digit_chr (n mod 10)])"

definition py_str :: "int \<Rightarrow> string" where
  "py_str i = (if i < 0 then CHR ''-'' # digits10 (nat (- i)) else digits10 (nat i))"

text \<open>
  The lambda itself (line 100). Dividing \<open>None\<close> or a string by 1000 raises \<open>TypeError\<close>.
\<close>

fun get_timestamp :: "pyval \<Rightarrow> error + pyval" where
  "get_timestamp (PyInt x) = Inr (PyStr (py_str (py_int (py_truediv x 1000))))"
| "get_timestamp PyNone = Inl TypeError"
| "get_timestamp (PyStr s) = Inl TypeError"

text \<open>
  \<open>udf(f)\<close> with the default return type \<open>StringType\<close>, applied to a nullable long
  column: a null reaches the Python function as \<open>None\<close>, and the value returned becomes a
  string column value.
\<close>

fun to_string_column :: "pyval \<Rightarrow> string option" where
  "to_string_column PyNone = None"
| "to_string_column (PyInt i) = Some (py_str i)"
| "to_string_column (PyStr s) = Some s"

definition udf :: "(pyval \<Rightarrow> error + pyval) \<Rightarrow> int option \<Rightarrow> error + string option" where
  "udf f x =
     (case f (case x of None \<Rightarrow> PyNone | Some i \<Rightarrow> PyInt i) of
        Inl err \<Rightarrow> Inl err
      | Inr v \<Rightarrow> Inr (to_string_column v))"

section \<open>\<open>process_song_data\<close>\<close>

definition songs_row_of :: "'f song_record \<Rightarrow> 'f songs_row" where
  "songs_row_of r =
     \<lparr>s_song_id = song_id r, s_title = title r, s_artist_id = artist_id r,
      s_year = year r, s_duration = duration r\<rparr>"

definition songs_table :: "'f song_record list \<Rightarrow> 'f songs_row list" where
  "songs_table df = remdups (map songs_row_of df)"

definition artists_row_of :: "'f song_record \<Rightarrow> 'f artists_row" where
  "artists_row_of r =
     \<lparr>a_artist_id = artist_id r, a_name = artist_name r, a_location = artist_location r,
      a_latitude = artist_latitude r, a_longitude = artist_longitude r\<rparr>"

definition artists_table :: "'f song_record list \<Rightarrow> 'f artists_row list" where
  "artists_table df = remdups (map artists_row_of df)"

definition dim_songs_write :: "string \<Rightarrow> write_op" where
  "dim_songs_write output_data =
     \<lparr>w_path = output_data @ ''dim_songs/'', w_mode = ''overwrite'',
      w_partitionBy = [''year'', ''artist_id'']\<rparr>"

definition dim_artists_write :: "string \<Rightarrow> write_op" where
  "dim_artists_write output_data =
     \<lparr>w_path = output_data @ ''dim_artists/'', w_mode = ''overwrite'', w_partitionBy = []\<rparr>"

definition process_song_data ::
  "'f song_record list \<Rightarrow> string \<Rightarrow>
   (write_op \<times> 'f songs_row list) \<times> (write_op \<times> 'f artists_row list)" where
  "process_song_data df output_data =
     ((dim_songs_write output_data, songs_table df),
      (dim_artists_write output_data, artists_table df))"

section \<open>\<open>process_log_data\<close>\<close>

text \<open>Line 80: \<open>df.filter(df.page == 'NextSong')\<close>; a null page does not pass.\<close>

definition nextsong :: "log_event list \<Rightarrow> log_event list" where
  "nextsong df = filter (\<lambda>e. page e = Some ''NextSong'') df"

text \<open>
  Lines 83 to 94. \<open>groupBy('userId').max('ts')\<close> has one row per distinct key, the null
  key included. The join condition compares with \<open>==\<close>, which is never true on a null.
\<close>

definition max_ts_user_df :: "log_event list \<Rightarrow> (string option \<times> int option) list" where
  "max_ts_user_df df =
     map (\<lambda>u. (u, max_agg (map ts (filter (\<lambda>e. userId e = u) df)))) (remdups (map userId df))"

definition mask :: "log_event \<Rightarrow> string option \<times> int option \<Rightarrow> bool" where
  "mask e g \<longleftrightarrow> userId e \<noteq> None \<and> userId e = fst g \<and> ts e \<noteq> None \<and> ts e = snd g"

definition users_row_of :: "log_event \<Rightarrow> users_row" where
  "users_row_of e =
     \<lparr>u_user_id = userId e, u_first_name = firstName e, u_last_name = lastName e,
      u_gender = gender e, u_level = level e\<rparr>"

definition users_table :: "log_event list \<Rightarrow> users_row list" where
  "users_table df = map (\<lambda>(e, g). users_row_of e) (inner_join mask df (max_ts_user_df df))"

definition dim_users_write :: "string \<Rightarrow> write_op" where
  "dim_users_write output_data =
     \<lparr>w_path = output_data @ ''dim_users/'', w_mode = ''overwrite'', w_partitionBy = []\<rparr>"

text \<open>
  Line 101: the column \<open>ts_ms\<close>. The rows are paired with the new value; an exception in
  the Python function fails the job that evaluates the column.
\<close>

fun with_ts_ms :: "log_event list \<Rightarrow> error + (log_event \<times> string option) list" where
  "with_ts_ms [] = Inr []"
| "with_ts_ms (e # es) =
     (case udf get_timestamp (ts e) of
        Inl err \<Rightarrow> Inl err
      | Inr v \<Rightarrow> (case with_ts_ms es of Inl err \<Rightarrow> Inl err | Inr rs \<Rightarrow> Inr ((e, v) # rs)))"

text \<open>Lines 104 to 115.\<close>

definition time_row_of :: "('dt, 'n) sql_functions \<Rightarrow> string option \<Rightarrow> ('dt, 'n) time_row" where
  "time_row_of sql v =
     (let datetime = from_unixtime sql v
      in \<lparr>t_start_time = datetime, t_hour = hour sql datetime, t_day = dayofmonth sql datetime,
          t_week = weekofyear sql datetime, t_month = month sql datetime,
          t_year = year_of sql datetime, t_weekday = dayofweek sql datetime\<rparr>)"

definition time_table ::
  "('dt, 'n) sql_functions \<Rightarrow> log_event list \<Rightarrow> error + ('dt, 'n) time_row list" where
  "time_table sql df =
     (case with_ts_ms df of
        Inl err \<Rightarrow> Inl err
      | Inr rows \<Rightarrow> Inr (map (\<lambda>(e, v). time_row_of sql v) rows))"

definition dim_time_write :: "string \<Rightarrow> write_op" where
  "dim_time_write output_data =
     \<lparr>w_path = output_data @ ''dim_time/'', w_mode = ''overwrite'', w_partitionBy = []\<rparr>"

text \<open>
  Lines 123 to 135. The join condition is \<open>(df.song == song_df.title) & (df.artist ==
  song_df.artist_name)\<close>; the columns \<open>song_id\<close> and \<open>artist_id\<close> come from the song side
  and are null on a row without a partner.
\<close>

definition join_cond :: "log_event \<times> string option \<Rightarrow> 'f song_record \<Rightarrow> bool" where
  "join_cond l s \<longleftrightarrow>
     song (fst l) \<noteq> None \<and> song (fst l) = title s \<and>
     artist (fst l) \<noteq> None \<and> artist (fst l) = artist_name s"

definition songplays_row_of ::
  "('dt, 'n) sql_functions \<Rightarrow> 64 word \<Rightarrow> log_event \<Rightarrow> string option \<Rightarrow> 'f song_record option \<Rightarrow>
   ('dt, 'n) songplays_row" where
  "songplays_row_of sql i e v so =
     (let datetime = from_unixtime sql v
      in \<lparr>f_songplay_id = i, f_start_time = datetime, f_user_id = userId e, f_level = level e,
          f_song_id = (case so of None \<Rightarrow> None | Some s \<Rightarrow> song_id s),
          f_artist_id = (case so of None \<Rightarrow> None | Some s \<Rightarrow> artist_id s),
          f_session_id = sessionId e, f_location = location e, f_user_agent = userAgent e,
          f_year = year_of sql datetime, f_month = month sql datetime\<rparr>)"

definition songplays_table ::
  "('dt, 'n) sql_functions \<Rightarrow> nat list \<Rightarrow> log_event list \<Rightarrow> 'f song_record list \<Rightarrow>
   error + ('dt, 'n) songplays_row list" where
  "songplays_table sql layout df song_df =
     (case with_ts_ms df of
        Inl err \<Rightarrow> Inl err
      | Inr rows \<Rightarrow>
          Inr (map (\<lambda>(i, (e, v), so). songplays_row_of sql i e v so)
                   (monotonically_increasing_id
                      (partitions layout (left_join join_cond rows song_df)))))"

definition fact_songplays_write :: "string \<Rightarrow> write_op" where
  "fact_songplays_write output_data =
     \<lparr>w_path = output_data @ ''fact_songplays/'', w_mode = ''overwrite'',
      w_partitionBy = [''year'', ''month'']\<rparr>"

definition process_log_data ::
  "('dt, 'n) sql_functions \<Rightarrow> nat list \<Rightarrow> log_event list \<Rightarrow> 'f song_record list \<Rightarrow> string \<Rightarrow>
   (write_op \<times> users_row list) \<times>
   (write_op \<times> (error + ('dt, 'n) time_row list)) \<times>
   (write_op \<times> (error + ('dt, 'n) songplays_row list))" where
  "process_log_data sql layout log_df song_df output_data =
     (let df = nextsong log_df
      in ((dim_users_write output_data, users_table df),
          (dim_time_write output_data, time_table sql df),
          (fact_songplays_write output_data, songplays_table sql layout df song_df)))"

text \<open>
  A stand-in for the engine's date functions, for running the model on examples: the
  datetime is the seconds string itself and every calendar field is the unit value.
\<close>

definition example_sql :: "(string option, unit) sql_functions" where
  "example_sql =
     \<lparr>from_unixtime = (\<lambda>v. v), hour = (\<lambda>d. ()), dayofmonth = (\<lambda>d. ()),
      weekofyear = (\<lambda>d. ()), month = (\<lambda>d. ()), year_of = (\<lambda>d. ()), dayofweek = (\<lambda>d. ())\<rparr>"

definition example_event :: "string \<Rightarrow> int \<Rightarrow> string \<Rightarrow> string \<Rightarrow> log_event" where
  "example_event u t l p =
     \<lparr>userId = Some u, firstName = Some ''Ann'', lastName = Some ''Lee'', gender = Some ''F'',
      level = Some l, ts = Some t, page = Some p, song = Some ''Song A'',
      artist = Some ''Artist A'', sessionId = Some 1, location = Some ''Lisbon'',
      userAgent = Some ''Mozilla''\<rparr>"

definition example_song :: "string \<Rightarrow> string \<Rightarrow> string \<Rightarrow> int song_record" where
  "example_song i t a =
     \<lparr>song_id = Some i, title = Some t, artist_id = Some ''AR1'', artist_name = Some a,
      artist_location = None, artist_latitude = None, artist_longitude = None,
      year = Some 2000, duration = Some 200\<rparr>"

definition example_play :: "string \<Rightarrow> string \<Rightarrow> int \<Rightarrow> log_event" where
  "example_play s a t =
     (example_event ''u1'' t ''free'' ''NextSong'')\<lparr>song := Some s, artist := Some a\<rparr>"

definition five_plays_example :: "log_event list" where
  "five_plays_example =
     [example_play ''Song A'' ''Artist A'' 1000, example_play ''Song B'' ''Artist B'' 2000,
      example_play ''song a'' ''Artist A'' 3000, example_play ''Song A'' ''Artist B'' 4000,
      example_play ''Song C'' ''Artist C'' 5000]"

definition two_songs_example :: "int song_record list" where
  "two_songs_example =
     [example_song ''S1'' ''Song A'' ''Artist A'', example_song ''S2'' ''Song B'' ''Artist B'']"

definition latest_state_example :: "log_event list" where
  "latest_state_example =
     [example_event ''u1'' 100 ''free'' ''NextSong'', example_event ''u1'' 200 ''paid'' ''NextSong'']"

definition tied_maximum_example :: "log_event list" where
  "tied_maximum_example =
     [example_event ''u1'' 100 ''free'' ''NextSong'', example_event ''u1'' 100 ''paid'' ''NextSong'']"

section \<open>Properties\<close>

subsection \<open>Auxiliary facts\<close>

lemma udf_get_timestamp_Some:
  "udf get_timestamp (Some x) = Inr (Some (py_str (py_int (py_truediv x 1000))))"
  by (simp add: udf_def)

lemma udf_get_timestamp_None: "udf get_timestamp None = Inl TypeError"
  by (simp add: udf_def)

lemma with_ts_ms_fst: "with_ts_ms df = Inr rows \<Longrightarrow> map fst rows = df"
  by (induction df arbitrary: rows) (auto split: sum.splits)

lemma with_ts_ms_length: "with_ts_ms df = Inr rows \<Longrightarrow> length rows = length df"
  using with_ts_ms_fst [of df rows] by (metis length_map)

lemma with_ts_ms_total:
  "\<forall>e \<in> set df. ts e \<noteq> None \<Longrightarrow> \<exists>rows. with_ts_ms df = Inr rows"
  by (induction df) (auto simp: udf_get_timestamp_Some)

lemma with_ts_ms_member:
  "with_ts_ms df = Inr rows \<Longrightarrow> e \<in> set df \<Longrightarrow>
   \<exists>v. udf get_timestamp (ts e) = Inr v \<and> (e, v) \<in> set rows"
  by (induction df arbitrary: rows) (auto split: sum.splits)

lemma nextsong_idem: "nextsong (nextsong df) = nextsong df"
  by (simp add: nextsong_def)

lemma max_agg_upper: "Some t \<in> set xs \<Longrightarrow> \<exists>m. max_agg xs = Some m \<and> t \<le> m"
  by (induction xs rule: max_agg.induct) (auto split: option.splits)

lemma max_agg_attained: "max_agg xs = Some m \<Longrightarrow> Some m \<in> set xs"
  by (induction xs arbitrary: m rule: max_agg.induct) (auto split: option.splits simp: max_def)

lemma filter_group_key:
  "distinct ks \<Longrightarrow> k \<in> set ks \<Longrightarrow>
   filter (\<lambda>g. fst g = k \<and> P g) (map (\<lambda>u. (u, M u)) ks) = (if P (k, M k) then [(k, M k)] else [])"
  by (induction ks) (auto simp: filter_empty_conv)

text \<open>An event finds at most one partner in the grouped table: the row of its own user.\<close>

lemma filter_mask:
  assumes "e \<in> set df"
  shows "filter (mask e) (max_ts_user_df df) =
    (if userId e \<noteq> None \<and> ts e \<noteq> None \<and>
        ts e = max_agg (map ts (filter (\<lambda>e'. userId e' = userId e) df))
     then [(userId e, max_agg (map ts (filter (\<lambda>e'. userId e' = userId e) df)))] else [])"
proof -
  have "filter (mask e) (max_ts_user_df df) =
     filter (\<lambda>g. fst g = userId e \<and> (userId e \<noteq> None \<and> ts e \<noteq> None \<and> ts e = snd g))
       (map (\<lambda>u. (u, max_agg (map ts (filter (\<lambda>e'. userId e' = u) df)))) (remdups (map userId df)))"
    unfolding max_ts_user_df_def mask_def by (rule filter_cong) auto
  also have "\<dots> =
    (if userId e \<noteq> None \<and> ts e \<noteq> None \<and>
        ts e = max_agg (map ts (filter (\<lambda>e'. userId e' = userId e) df))
     then [(userId e, max_agg (map ts (filter (\<lambda>e'. userId e' = userId e) df)))] else [])"
    using assms by (subst filter_group_key) auto
  finally show ?thesis .
qed

lemma users_table_filter:
  "users_table df =
     map users_row_of (filter (\<lambda>e. userId e \<noteq> None \<and> ts e \<noteq> None \<and>
        ts e = max_agg (map ts (filter (\<lambda>e'. userId e' = userId e) df))) df)"
proof -
  have "map (\<lambda>(e, g). users_row_of e)
          (concat (map (\<lambda>l. map (Pair l) (filter (mask l) (max_ts_user_df df))) xs)) =
        map users_row_of (filter (\<lambda>e. userId e \<noteq> None \<and> ts e \<noteq> None \<and>
          ts e = max_agg (map ts (filter (\<lambda>e'. userId e' = userId e) df))) xs)"
    if "set xs \<subseteq> set df" for xs
    using that by (induction xs) (auto simp: filter_mask)
  then show ?thesis by (simp add: users_table_def inner_join_def)
qed

lemma users_of_user:
  "filter (\<lambda>r. u_user_id r = Some u) (users_table df) =
   map users_row_of (filter (\<lambda>e. userId e = Some u \<and> ts e \<noteq> None \<and>
      ts e = max_agg (map ts (filter (\<lambda>e'. userId e' = Some u) df))) df)"
proof -
  have "filter (\<lambda>r. u_user_id r = Some u) (users_table df) =
        map users_row_of (filter (\<lambda>e. (userId e \<noteq> None \<and> ts e \<noteq> None \<and>
          ts e = max_agg (map ts (filter (\<lambda>e'. userId e' = userId e) df))) \<and> userId e = Some u) df)"
    by (simp add: users_table_filter filter_map o_def users_row_of_def)
  also have "filter (\<lambda>e. (userId e \<noteq> None \<and> ts e \<noteq> None \<and>
          ts e = max_agg (map ts (filter (\<lambda>e'. userId e' = userId e) df))) \<and> userId e = Some u) df =
     filter (\<lambda>e. userId e = Some u \<and> ts e \<noteq> None \<and>
      ts e = max_agg (map ts (filter (\<lambda>e'. userId e' = Some u) df))) df"
    by (rule filter_cong) auto
  finally show ?thesis .
qed

lemma user_max_ts:
  assumes "e0 \<in> set df" "userId e0 = Some u" "ts e0 \<noteq> None"
  shows "\<exists>m. max_agg (map ts (filter (\<lambda>e'. userId e' = Some u) df)) = Some m \<and>
     (\<exists>e \<in> set df. userId e = Some u \<and> ts e = Some m) \<and>
     (\<forall>e' \<in> set df. \<forall>t. userId e' = Some u \<and> ts e' = Some t \<longrightarrow> t \<le> m)"
proof -
  let ?xs = "map ts (filter (\<lambda>e'. userId e' = Some u) df)"
  from assms obtain t0 where t0: "Some t0 \<in> set ?xs"
    by force
  then obtain m where m: "max_agg ?xs = Some m"
    using max_agg_upper by blast
  have att: "\<exists>e \<in> set df. userId e = Some u \<and> ts e = Some m"
    using max_agg_attained [OF m] by auto
  have up: "\<forall>e' \<in> set df. \<forall>t. userId e' = Some u \<and> ts e' = Some t \<longrightarrow> t \<le> m"
  proof (intro ballI allI impI)
    fix e' t assume "e' \<in> set df" "userId e' = Some u \<and> ts e' = Some t"
    then have "Some t \<in> set ?xs" by force
    from max_agg_upper [OF this] m show "t \<le> m" by simp
  qed
  from m att up show ?thesis by blast
qed

lemma mono_id_of_nat: "mono_id p k = word_of_nat (p * 2 ^ 33 + k)"
  by (simp add: mono_id_def push_bit_eq_mult)

lemma unat_mono_id:
  assumes "p < 2 ^ 31" and "k < 2 ^ 33"
  shows "unat (mono_id p k) = p * 2 ^ 33 + k"
proof -
  from assms(1) have "p * 2 ^ 33 \<le> (2 ^ 31 - 1) * 2 ^ 33"
    by simp
  with assms(2) have "p * 2 ^ 33 + k < 2 ^ 64"
    by simp
  then have "p * 2 ^ 33 + k < 2 ^ LENGTH(64)"
    by simp
  with mono_id_of_nat [of p k] show ?thesis
    by (rule of_nat_inverse [OF sym])
qed

lemma pair_code_inj:
  fixes b :: nat
  assumes "k < b" "k' < b" and eq: "p * b + k = p' * b + k'"
  shows "p = p' \<and> k = k'"
proof -
  have "(p * b + k) div b = p" "(p' * b + k') div b = p'"
    using assms(1,2) by simp_all
  with eq have "p = p'" by simp
  with eq show ?thesis by simp
qed

lemma mono_id_inj:
  assumes "p < 2 ^ 31" "k < 2 ^ 33" "p' < 2 ^ 31" "k' < 2 ^ 33"
    and "mono_id p k = mono_id p' k'"
  shows "p = p' \<and> k = k'"
proof -
  have "p * 2 ^ 33 + k = p' * 2 ^ 33 + k'"
    using assms unat_mono_id [of p k] unat_mono_id [of p' k'] by simp
  with assms(2,4) show ?thesis
    by (rule pair_code_inj)
qed

lemma ids_of_partitions:
  "map fst (concat (map (\<lambda>(p, part). map (\<lambda>(k, r). (mono_id p k, r)) (enumerate 0 part))
                        (enumerate n parts))) =
   concat (map (\<lambda>(p, part). map (mono_id p) [0..<length part]) (enumerate n parts))"
proof (induction parts arbitrary: n)
  case Nil
  show ?case by simp
next
  case (Cons part parts)
  have "map fst (map (\<lambda>(k, r). (mono_id n k, r)) (enumerate 0 part)) =
        map (mono_id n) [0..<length part]"
  proof -
    have "map fst (map (\<lambda>(k, r). (mono_id n k, r)) (enumerate 0 part)) =
          map (mono_id n \<circ> fst) (enumerate 0 part)"
      by (simp add: case_prod_unfold o_def)
    also have "\<dots> = map (mono_id n) (map fst (enumerate 0 part))"
      by (simp only: map_map)
    also have "map fst (enumerate 0 part) = [0..<length part]"
      by (simp add: map_fst_enumerate)
    finally show ?thesis .
  qed
  with Cons show ?case by simp
qed

lemma ids_range:
  assumes "x \<in> set (concat (map (\<lambda>(p, part). map (mono_id p) [0..<length part]) (enumerate n parts)))"
    and "\<forall>part \<in> set parts. length part \<le> b"
  shows "\<exists>p k. x = mono_id p k \<and> n \<le> p \<and> p < n + length parts \<and> k < b"
  using assms
proof (induction parts arbitrary: n)
  case Nil
  then show ?case by simp
next
  case (Cons part parts)
  from Cons.prems(1) consider
      "x \<in> set (map (mono_id n) [0..<length part])"
    | "x \<in> set (concat (map (\<lambda>(p, part). map (mono_id p) [0..<length part]) (enumerate (Suc n) parts)))"
    by auto
  then show ?case
  proof cases
    case 1
    then obtain k where "x = mono_id n k" "k < length part" by auto
    with Cons.prems(2) show ?thesis by (intro exI [of _ n] exI [of _ k]) auto
  next
    case 2
    with Cons.IH [of "Suc n"] Cons.prems(2) obtain p k where
      "x = mono_id p k" "Suc n \<le> p" "p < Suc n + length parts" "k < b"
      by auto
    then show ?thesis by (intro exI [of _ p] exI [of _ k]) auto
  qed
qed

lemma distinct_ids:
  assumes "n + length parts \<le> 2 ^ 31" and "\<forall>part \<in> set parts. length part \<le> 2 ^ 33"
  shows "distinct (concat (map (\<lambda>(p, part). map (mono_id p) [0..<length part]) (enumerate n parts)))"
  using assms
proof (induction parts arbitrary: n)
  case Nil
  show ?case by simp
next
  case (Cons part parts)
  have n: "n < 2 ^ 31" and len: "length part \<le> 2 ^ 33"
    using Cons.prems by simp_all
  have d1: "distinct (map (mono_id n) [0..<length part])"
  proof (rule distinct_map [THEN iffD2], intro conjI inj_onI)
    show "distinct [0..<length part]" by simp
  next
    fix k k' assume "k \<in> set [0..<length part]" "k' \<in> set [0..<length part]"
      and "mono_id n k = mono_id n k'"
    with len n show "k = k'"
      using mono_id_inj [of n k n k'] by simp
  qed
  have d2: "distinct (concat (map (\<lambda>(p, part). map (mono_id p) [0..<length part]) (enumerate (Suc n) parts)))"
    using Cons.IH [of "Suc n"] Cons.prems by simp
  have d3: "set (map (mono_id n) [0..<length part]) \<inter>
      set (concat (map (\<lambda>(p, part). map (mono_id p) [0..<length part]) (enumerate (Suc n) parts))) = {}"
  proof (rule ccontr)
    assume "\<not> ?thesis"
    then obtain x where x1: "x \<in> set (map (mono_id n) [0..<length part])"
      and x2: "x \<in> set (concat (map (\<lambda>(p, part). map (mono_id p) [0..<length part]) (enumerate (Suc n) parts)))"
      by blast
    from x1 obtain k where k: "x = mono_id n k" "k < length part" by auto
    from ids_range [OF x2, of "2 ^ 33"] Cons.prems(2) obtain p k' where
      p: "x = mono_id p k'" "Suc n \<le> p" "p < Suc n + length parts" "k' < 2 ^ 33"
      by auto
    have "p < 2 ^ 31" using p(3) Cons.prems(1) by simp
    with k p len n mono_id_inj [of n k p k'] show False by simp
  qed
  from d1 d2 d3 show ?case by simp
qed

lemma concat_partitions: "concat (partitions layout xs) = xs"
  by (induction layout arbitrary: xs) auto

lemma length_partitions: "length (partitions layout xs) = Suc (length layout)"
  by (induction layout arbitrary: xs) auto

lemma partitions_sizes:
  assumes "\<forall>n \<in> set layout. n \<le> b" and "length xs \<le> sum_list layout + b"
  shows "\<forall>part \<in> set (partitions layout xs). length part \<le> b"
  using assms
proof (induction layout arbitrary: xs)
  case Nil
  then show ?case by simp
next
  case (Cons n layout)
  have "length (drop n xs) \<le> sum_list layout + b"
    using Cons.prems(2) by simp
  with Cons.IH [of "drop n xs"] Cons.prems(1)
  have "\<forall>part \<in> set (partitions layout (drop n xs)). length part \<le> b"
    by simp
  moreover have "length (take n xs) \<le> b"
    using Cons.prems(1) by (simp add: min_def)
  ultimately show ?case by simp
qed

lemma monotonically_increasing_id_snd: "map snd (monotonically_increasing_id parts) = concat parts"
proof -
  have "map snd (concat (map (\<lambda>(p, part). map (\<lambda>(k, r). (mono_id p k, r)) (enumerate 0 part))
            (enumerate n ps))) = concat ps" for n and ps :: "'a list list"
  proof (induction ps arbitrary: n)
    case Nil
    show ?case by simp
  next
    case (Cons part ps)
    have "map snd (map (\<lambda>(k, r). (mono_id n k, r)) (enumerate 0 part)) = part"
      by (simp add: o_def case_prod_unfold)
    with Cons show ?case by simp
  qed
  then show ?thesis by (simp add: monotonically_increasing_id_def)
qed

lemma length_left_join:
  "length (left_join c ls rs) = sum_list (map (\<lambda>l. max 1 (length (filter (c l) rs))) ls)"
  by (induction ls) (simp_all add: left_join_def split: list.split)

lemma left_join_unmatched:
  "l \<in> set ls \<Longrightarrow> filter (c l) rs = [] \<Longrightarrow> (l, None) \<in> set (left_join c ls rs)"
  by (force simp: left_join_def)

lemma join_cond_fun:
  "join_cond l = (\<lambda>s. song (fst l) \<noteq> None \<and> song (fst l) = title s \<and>
                      artist (fst l) \<noteq> None \<and> artist (fst l) = artist_name s)"
  by (rule ext) (simp only: join_cond_def)

lemma songplays_table_rows:
  assumes "with_ts_ms df = Inr rws"
  shows "songplays_table sql layout df song_df =
     Inr (map (\<lambda>(i, (e, v), so). songplays_row_of sql i e v so)
           (monotonically_increasing_id (partitions layout (left_join join_cond rws song_df))))"
  using assms by (simp add: songplays_table_def)

lemma length_songplays:
  assumes "with_ts_ms df = Inr rws" and "songplays_table sql layout df song_df = Inr rows"
  shows "length rows = sum_list (map (\<lambda>e. max 1 (length (filter (\<lambda>s.
            song e \<noteq> None \<and> song e = title s \<and> artist e \<noteq> None \<and> artist e = artist_name s) song_df))) df)"
proof -
  have "rows = map (\<lambda>(i, (e, v), so). songplays_row_of sql i e v so)
           (monotonically_increasing_id (partitions layout (left_join join_cond rws song_df)))"
    using assms by (simp add: songplays_table_def)
  then have "length rows = length (map snd (monotonically_increasing_id
            (partitions layout (left_join join_cond rws song_df))))"
    by simp
  also have "\<dots> = length (left_join join_cond rws song_df)"
    by (simp only: monotonically_increasing_id_snd concat_partitions)
  also have "\<dots> = sum_list (map (\<lambda>l. max 1 (length (filter (join_cond l) song_df))) rws)"
    by (rule length_left_join)
  also have "\<dots> = sum_list (map (\<lambda>e. max 1 (length (filter (\<lambda>s.
            song e \<noteq> None \<and> song e = title s \<and> artist e \<noteq> None \<and> artist e = artist_name s) song_df)))
          (map fst rws))"
    by (simp only: join_cond_fun map_map o_def)
  finally show ?thesis
    using with_ts_ms_fst [OF assms(1)] by simp
qed

lemma sum_list_ge_length: "length xs \<le> sum_list (map (\<lambda>x. max (1::nat) (f x)) xs)"
  by (induction xs) auto

lemma sum_list_eq_length:
  "\<forall>x \<in> set xs. f x \<le> (1::nat) \<Longrightarrow> sum_list (map (\<lambda>x. max 1 (f x)) xs) = length xs"
  by (induction xs) (auto simp: max_def)

lemma scale_up_reaches: "0 < n \<Longrightarrow> 2 ^ 52 * d \<le> n * 2 ^ scale_up n d k"
proof (induction n d k rule: scale_up.induct)
  case (1 n d k)
  show ?case
  proof (cases "2 ^ 52 * d \<le> n * 2 ^ k")
    case True
    then have "scale_up n d k = k"
      by (subst scale_up.simps) (simp del: scale_up.simps)
    with True show ?thesis
      by (simp del: scale_up.simps)
  next
    case False
    with 1 have "2 ^ 52 * d \<le> n * 2 ^ scale_up n d (Suc k)"
      by (simp del: scale_up.simps)
    moreover have "scale_up n d k = scale_up n d (Suc k)"
      using False 1(2) by (subst scale_up.simps) (simp del: scale_up.simps)
    ultimately show ?thesis
      by (simp del: scale_up.simps)
  qed
qed

lemma rne_div_trunc:
  fixes n P :: int
  assumes "0 \<le> n" and "512 \<le> P"
  shows "rne_div (n * P) 1000 div P = n div 1000"
proof -
  define d where "d = n div 1000"
  define r where "r = n mod 1000"
  define X where "X = d * P"
  define Y where "Y = r * P"
  have n: "n = 1000 * d + r" and r: "0 \<le> r" "r \<le> 999"
    unfolding d_def r_def by simp_all
  have Y: "0 \<le> Y" "Y \<le> 999 * P"
    unfolding Y_def using r assms(2) by (simp_all add: mult_right_mono)
  have nP: "n * P = 1000 * X + Y"
    unfolding n X_def Y_def by (simp add: algebra_simps)
  define a where "a = Y div 1000"
  define b where "b = Y mod 1000"
  have Yab: "Y = 1000 * a + b" and b: "0 \<le> b" "b < 1000"
    unfolding a_def b_def by simp_all
  have a0: "0 \<le> a"
    unfolding a_def using Y(1) by simp
  have quot: "(1000 * X + Y) div 1000 = X + a"
    unfolding a_def by simp
  have rem: "(1000 * X + Y) mod 1000 = b"
    unfolding b_def by simp
  define m where "m = rne_div (1000 * X + Y) 1000"
  have m_cases: "m = X + a \<or> (m = X + a + 1 \<and> 500 \<le> b)"
    unfolding m_def rne_div_def Let_def quot rem by auto
  have small: "a + 1 < P \<or> (a + 1 = P \<and> b < 500)"
    using Y(2) b assms(2) unfolding Yab by linarith
  have lo: "X \<le> m"
    using m_cases a0 by linarith
  have hi: "m < X + P"
    using m_cases small by linarith
  have "m div P = d"
  proof (rule int_div_pos_eq [of m P d "m - X"])
    show "m = P * d + (m - X)" by (simp add: X_def)
    show "0 \<le> m - X" using lo by simp
    show "m - X < P" using hi by simp
  qed
  then show ?thesis
    by (simp add: m_def nP d_def)
qed

lemma rne_div_nonneg: "0 \<le> n \<Longrightarrow> 0 < d \<Longrightarrow> 0 \<le> rne_div n d"
  by (simp add: rne_div_def Let_def pos_imp_zdiv_nonneg_iff)

lemma py_int_truediv_1000:
  assumes "\<bar>x\<bar> < 1000 * 2 ^ 44"
  shows "py_int (py_truediv x 1000) = sgn x * (\<bar>x\<bar> div 1000)"
proof (cases "x = 0")
  case True
  then show ?thesis by (simp add: py_truediv_def)
next
  case False
  define n where "n = \<bar>x\<bar>"
  define K where "K = scale_up n 1000 0"
  define m where "m = rne_div (n * 2 ^ K) 1000"
  have n: "0 < n" "n < 1000 * 2 ^ 44"
    using False assms by (simp_all add: n_def)
  have reach: "2 ^ 52 * 1000 \<le> n * 2 ^ K"
    unfolding K_def using n(1) by (rule scale_up_reaches)
  have K9: "9 \<le> K"
  proof (rule ccontr)
    assume "\<not> 9 \<le> K"
    then have "K \<le> 8" by simp
    then have "(2::int) ^ K \<le> 2 ^ 8"
      by (rule power_increasing) simp
    then have "n * 2 ^ K \<le> n * 2 ^ 8"
      using n(1) by (simp add: mult_left_mono)
    with n(2) reach show False by simp
  qed
  have "(2::int) ^ 9 \<le> 2 ^ K"
    using K9 by (rule power_increasing) simp
  then have P: "(512::int) \<le> 2 ^ K"
    by simp
  have m0: "0 \<le> m"
    unfolding m_def using n(1) by (intro rne_div_nonneg) simp_all
  have trunc: "m div 2 ^ K = n div 1000"
    unfolding m_def using n(1) P by (intro rne_div_trunc) simp_all
  have fl: "py_truediv x 1000 = PyFloat (sgn x * m) (- int K)"
    using n
    by (simp add: py_truediv_def Let_def n_def [symmetric] K_def [symmetric] m_def [symmetric]
          del: scale_up.simps)
  have "py_int (py_truediv x 1000) = sgn (sgn x * m) * (\<bar>sgn x * m\<bar> div 2 ^ K)"
    unfolding fl using K9 by simp
  also have "\<bar>sgn x * m\<bar> = m"
    using False m0 by (simp add: abs_mult)
  also have "sgn (sgn x * m) * (m div 2 ^ K) = sgn x * (sgn m * (m div 2 ^ K))"
    by (simp add: sgn_mult)
  also have "sgn m * (m div 2 ^ K) = m div 2 ^ K"
    using m0 by (cases "m = 0") simp_all
  finally show ?thesis
    by (simp add: trunc n_def)
qed

lemma left_join_map:
  assumes "\<And>l r. c (g l) r = c l r"
  shows "left_join c (map g ls) rs = map (apfst g) (left_join c ls rs)"
proof -
  have "(case filter (c (g l)) rs of [] \<Rightarrow> [(g l, None)] | m # ms \<Rightarrow> map (\<lambda>r. (g l, Some r)) (m # ms)) =
        map (apfst g) (case filter (c l) rs of [] \<Rightarrow> [(l, None)] | m # ms \<Rightarrow> map (\<lambda>r. (l, Some r)) (m # ms))"
    for l
  proof -
    have "filter (c (g l)) rs = filter (c l) rs"
      by (rule filter_cong) (simp_all add: assms)
    then show ?thesis
      by (simp split: list.split)
  qed
  then show ?thesis
    by (simp add: left_join_def map_concat o_def)
qed

lemma partitions_map: "partitions ns (map f xs) = map (map f) (partitions ns xs)"
  by (induction ns arbitrary: xs) (simp_all add: take_map drop_map)

lemma enumerate_map: "enumerate n (map f xs) = map (apsnd f) (enumerate n xs)"
  by (induction xs arbitrary: n) simp_all

lemma monotonically_increasing_id_map:
  "monotonically_increasing_id (map (map f) parts) = map (apsnd f) (monotonically_increasing_id parts)"
proof -
  have "concat (map (\<lambda>(p, part). map (\<lambda>(k, r). (mono_id p k, r)) (enumerate 0 part))
          (enumerate n (map (map f) ps))) =
        map (apsnd f) (concat (map (\<lambda>(p, part). map (\<lambda>(k, r). (mono_id p k, r)) (enumerate 0 part))
          (enumerate n ps)))" for n ps
  proof (induction ps arbitrary: n)
    case Nil
    show ?case by simp
  next
    case (Cons part ps)
    have "map (\<lambda>(k, r). (mono_id n k, r)) (enumerate 0 (map f part)) =
          map (apsnd f) (map (\<lambda>(k, r). (mono_id n k, r)) (enumerate 0 part))"
      by (simp add: enumerate_map case_prod_unfold o_def)
    with Cons show ?case by simp
  qed
  then show ?thesis
    by (simp add: monotonically_increasing_id_def)
qed

lemma with_ts_ms_same_seconds:
  assumes "list_all2 (\<lambda>e e'. e'\<lparr>ts := None\<rparr> = e\<lparr>ts := None\<rparr> \<and>
              udf get_timestamp (ts e') = udf get_timestamp (ts e)) df df'"
  shows "map_sum id (map (apfst (\<lambda>e. e\<lparr>ts := None\<rparr>))) (with_ts_ms df') =
         map_sum id (map (apfst (\<lambda>e. e\<lparr>ts := None\<rparr>))) (with_ts_ms df)"
  using assms
proof (induction rule: list_all2_induct)
  case Nil
  show ?case by simp
next
  case (Cons e df e' df')
  then show ?case
    by (cases "udf get_timestamp (ts e)"; cases "with_ts_ms df"; cases "with_ts_ms df'") auto
qed

lemma time_table_erased:
  "time_table sql df =
     (case map_sum id (map (apfst (\<lambda>e. e\<lparr>ts := None\<rparr>))) (with_ts_ms df) of
        Inl err \<Rightarrow> Inl err
      | Inr rows \<Rightarrow> Inr (map (\<lambda>(e, v). time_row_of sql v) rows))"
  by (cases "with_ts_ms df") (simp_all add: time_table_def o_def case_prod_unfold)

lemma songplays_row_of_erased:
  "songplays_row_of sql i (e\<lparr>ts := None\<rparr>) v so = songplays_row_of sql i e v so"
  by (simp add: songplays_row_of_def)

lemma join_cond_erased: "join_cond (apfst (\<lambda>e. e\<lparr>ts := None\<rparr>) l) s = join_cond l s"
  by (simp add: join_cond_def)

lemma songplays_table_erased:
  "songplays_table sql layout df song_df =
     (case map_sum id (map (apfst (\<lambda>e. e\<lparr>ts := None\<rparr>))) (with_ts_ms df) of
        Inl err \<Rightarrow> Inl err
      | Inr rows \<Rightarrow>
          Inr (map (\<lambda>(i, (e, v), so). songplays_row_of sql i e v so)
                   (monotonically_increasing_id
                      (partitions layout (left_join join_cond rows song_df)))))"
proof (cases "with_ts_ms df")
  case (Inl err)
  then show ?thesis by (simp add: songplays_table_def)
next
  case (Inr rows)
  have "left_join join_cond (map (apfst (\<lambda>e. e\<lparr>ts := None\<rparr>)) rows) song_df =
        map (apfst (apfst (\<lambda>e. e\<lparr>ts := None\<rparr>))) (left_join join_cond rows song_df)"
    by (rule left_join_map) (rule join_cond_erased)
  then have "map (\<lambda>(i, (e, v), so). songplays_row_of sql i e v so)
       (monotonically_increasing_id (partitions layout
          (left_join join_cond (map (apfst (\<lambda>e. e\<lparr>ts := None\<rparr>)) rows) song_df))) =
     map (\<lambda>(i, (e, v), so). songplays_row_of sql i e v so)
       (monotonically_increasing_id (partitions layout (left_join join_cond rows song_df)))"
    by (simp add: partitions_map monotonically_increasing_id_map o_def case_prod_unfold
          songplays_row_of_erased)
  with Inr show ?thesis
    by (simp add: songplays_table_def)
qed

subsection \<open>The song dimensions\<close>

text \<open>
  C5. SongDim and ArtistDim hold no row twice, their rows are exactly the projections of
  the input rows, and feeding the builder its input twice over (every row duplicated)
  gives the same tables: duplicates collapse, and the tables depend on the input only.
\<close>

theorem song_dimensions_deduplicated:
  "distinct (snd (fst (process_song_data df out))) \<and>
   distinct (snd (snd (process_song_data df out))) \<and>
   set (snd (fst (process_song_data df out))) = songs_row_of ` set df \<and>
   set (snd (snd (process_song_data df out))) = artists_row_of ` set df \<and>
   process_song_data (df @ df) out = process_song_data df out"
  by (simp add: process_song_data_def songs_table_def artists_table_def remdups_append)

subsection \<open>The users dimension\<close>

text \<open>
  C1. Every row of UserDim with user id \<open>u\<close> carries the names, gender and level of a
  NextSong event of \<open>u\<close> whose \<open>ts\<close> is the largest \<open>ts\<close> among the NextSong events of \<open>u\<close>.
  With events at 100 (free) and 200 (paid) the table is the single row with level paid.
\<close>

theorem users_rows_carry_latest_state:
  assumes "r \<in> set (users_table (nextsong log_df))" and "u_user_id r = Some u"
  shows "\<exists>e \<in> set log_df. \<exists>m.
     page e = Some ''NextSong'' \<and> userId e = Some u \<and> ts e = Some m \<and>
     (\<forall>e' \<in> set log_df. \<forall>t.
        page e' = Some ''NextSong'' \<and> userId e' = Some u \<and> ts e' = Some t \<longrightarrow> t \<le> m) \<and>
     u_first_name r = firstName e \<and> u_last_name r = lastName e \<and>
     u_gender r = gender e \<and> u_level r = level e"
proof -
  let ?df = "nextsong log_df"
  from assms have "r \<in> set (filter (\<lambda>r. u_user_id r = Some u) (users_table ?df))"
    by simp
  then obtain e where e0: "r = users_row_of e"
      "e \<in> set (filter (\<lambda>e. userId e = Some u \<and> ts e \<noteq> None \<and>
          ts e = max_agg (map ts (filter (\<lambda>e'. userId e' = Some u) ?df))) ?df)"
    unfolding users_of_user by auto
  have e: "e \<in> set ?df" "userId e = Some u" "ts e \<noteq> None"
      "ts e = max_agg (map ts (filter (\<lambda>e'. userId e' = Some u) ?df))" "r = users_row_of e"
    using e0 unfolding set_filter mem_Collect_eq by blast+
  from user_max_ts [OF e(1,2,3)] obtain m where
    m: "max_agg (map ts (filter (\<lambda>e'. userId e' = Some u) ?df)) = Some m"
      "\<forall>e' \<in> set ?df. \<forall>t. userId e' = Some u \<and> ts e' = Some t \<longrightarrow> t \<le> m"
    by blast
  have "e \<in> set log_df" "page e = Some ''NextSong''"
    using e(1) by (simp_all add: nextsong_def)
  moreover have "ts e = Some m"
    using e(4) m(1) by simp
  moreover have "\<forall>e' \<in> set log_df. \<forall>t.
        page e' = Some ''NextSong'' \<and> userId e' = Some u \<and> ts e' = Some t \<longrightarrow> t \<le> m"
    using m(2) by (auto simp: nextsong_def)
  ultimately show ?thesis
    using e(2,5) by (auto simp: users_row_of_def)
qed

theorem users_rows_carry_latest_state_witness:
  "users_table (nextsong latest_state_example) =
     [\<lparr>u_user_id = Some ''u1'', u_first_name = Some ''Ann'', u_last_name = Some ''Lee'',
       u_gender = Some ''F'', u_level = Some ''paid''\<rparr>] \<and>
   (\<exists>e \<in> set latest_state_example. \<exists>m.
     page e = Some ''NextSong'' \<and> userId e = Some ''u1'' \<and> ts e = Some m \<and>
     (\<forall>e' \<in> set latest_state_example. \<forall>t.
        page e' = Some ''NextSong'' \<and> userId e' = Some ''u1'' \<and> ts e' = Some t \<longrightarrow> t \<le> m) \<and>
     Some ''Ann'' = firstName e \<and> Some ''Lee'' = lastName e \<and>
     Some ''F'' = gender e \<and> Some ''paid'' = level e)"
proof -
  have run: "users_table (nextsong latest_state_example) =
     [\<lparr>u_user_id = Some ''u1'', u_first_name = Some ''Ann'', u_last_name = Some ''Lee'',
       u_gender = Some ''F'', u_level = Some ''paid''\<rparr>]"
    by code_simp
  have h1: "\<lparr>u_user_id = Some ''u1'', u_first_name = Some ''Ann'', u_last_name = Some ''Lee'',
       u_gender = Some ''F'', u_level = Some ''paid''\<rparr> \<in> set (users_table (nextsong latest_state_example))"
    by (simp add: run)
  have h2: "u_user_id \<lparr>u_user_id = Some ''u1'', u_first_name = Some ''Ann'', u_last_name = Some ''Lee'',
       u_gender = Some ''F'', u_level = Some ''paid''\<rparr> = Some ''u1''"
    by simp
  from users_rows_carry_latest_state [OF h1 h2] run show ?thesis
    by simp
qed

text \<open>
  C4, as the code has it. A user with a NextSong event that carries a \<open>ts\<close> is present in
  UserDim, with one row for each NextSong event of that user whose \<open>ts\<close> is the user's
  largest: a single row when one event attains the maximum, several rows when several
  events share it.
\<close>

theorem users_rows_per_user:
  assumes "e0 \<in> set log_df" and "page e0 = Some ''NextSong''"
    and "userId e0 = Some u" and "ts e0 \<noteq> None"
  shows "\<exists>m.
     (\<exists>e \<in> set log_df. page e = Some ''NextSong'' \<and> userId e = Some u \<and> ts e = Some m) \<and>
     (\<forall>e' \<in> set log_df. \<forall>t.
        page e' = Some ''NextSong'' \<and> userId e' = Some u \<and> ts e' = Some t \<longrightarrow> t \<le> m) \<and>
     length (filter (\<lambda>r. u_user_id r = Some u) (users_table (nextsong log_df))) =
       length (filter (\<lambda>e. page e = Some ''NextSong'' \<and> userId e = Some u \<and> ts e = Some m) log_df) \<and>
     0 < length (filter (\<lambda>r. u_user_id r = Some u) (users_table (nextsong log_df)))"
proof -
  let ?df = "nextsong log_df"
  have "e0 \<in> set ?df"
    using assms(1,2) by (simp add: nextsong_def)
  from user_max_ts [OF this assms(3,4)] obtain m where
    m: "max_agg (map ts (filter (\<lambda>e'. userId e' = Some u) ?df)) = Some m"
      "\<exists>e \<in> set ?df. userId e = Some u \<and> ts e = Some m"
      "\<forall>e' \<in> set ?df. \<forall>t. userId e' = Some u \<and> ts e' = Some t \<longrightarrow> t \<le> m"
    by blast
  have len: "length (filter (\<lambda>r. u_user_id r = Some u) (users_table ?df)) =
       length (filter (\<lambda>e. page e = Some ''NextSong'' \<and> userId e = Some u \<and> ts e = Some m) log_df)"
  proof -
    have "filter (\<lambda>e. userId e = Some u \<and> ts e \<noteq> None \<and>
            ts e = max_agg (map ts (filter (\<lambda>e'. userId e' = Some u) ?df))) ?df =
          filter (\<lambda>e. page e = Some ''NextSong'' \<and> userId e = Some u \<and> ts e = Some m) log_df"
      unfolding m(1) by (simp add: nextsong_def) (rule filter_cong, auto)
    then show ?thesis
      by (simp add: users_of_user)
  qed
  have pos: "0 < length (filter (\<lambda>e. page e = Some ''NextSong'' \<and> userId e = Some u \<and> ts e = Some m) log_df)"
    using m(2) by (auto simp: nextsong_def filter_empty_conv)
  have a: "\<exists>e \<in> set log_df. page e = Some ''NextSong'' \<and> userId e = Some u \<and> ts e = Some m"
    using m(2) by (auto simp: nextsong_def)
  have b: "\<forall>e' \<in> set log_df. \<forall>t.
        page e' = Some ''NextSong'' \<and> userId e' = Some u \<and> ts e' = Some t \<longrightarrow> t \<le> m"
    using m(3) by (auto simp: nextsong_def)
  from a b len pos show ?thesis
    by (intro exI [of _ m]) simp
qed

theorem users_rows_per_user_witness:
  "example_event ''u1'' 100 ''free'' ''NextSong'' \<in> set tied_maximum_example \<and>
   page (example_event ''u1'' 100 ''free'' ''NextSong'') = Some ''NextSong'' \<and>
   userId (example_event ''u1'' 100 ''free'' ''NextSong'') = Some ''u1'' \<and>
   ts (example_event ''u1'' 100 ''free'' ''NextSong'') \<noteq> None \<and>
   (\<exists>m.
     (\<exists>e \<in> set tied_maximum_example.
        page e = Some ''NextSong'' \<and> userId e = Some ''u1'' \<and> ts e = Some m) \<and>
     (\<forall>e' \<in> set tied_maximum_example. \<forall>t.
        page e' = Some ''NextSong'' \<and> userId e' = Some ''u1'' \<and> ts e' = Some t \<longrightarrow> t \<le> m) \<and>
     length (filter (\<lambda>r. u_user_id r = Some ''u1'') (users_table (nextsong tied_maximum_example))) =
       length (filter (\<lambda>e. page e = Some ''NextSong'' \<and> userId e = Some ''u1'' \<and> ts e = Some m)
                 tied_maximum_example) \<and>
     0 < length (filter (\<lambda>r. u_user_id r = Some ''u1'') (users_table (nextsong tied_maximum_example))))"
proof -
  have h1: "example_event ''u1'' 100 ''free'' ''NextSong'' \<in> set tied_maximum_example"
    by (simp add: tied_maximum_example_def)
  have h2: "page (example_event ''u1'' 100 ''free'' ''NextSong'') = Some ''NextSong''"
    by (simp add: example_event_def)
  have h3: "userId (example_event ''u1'' 100 ''free'' ''NextSong'') = Some ''u1''"
    by (simp add: example_event_def)
  have h4: "ts (example_event ''u1'' 100 ''free'' ''NextSong'') \<noteq> None"
    by (simp add: example_event_def)
  from users_rows_per_user [OF h1 h2 h3 h4] h1 h2 h3 h4 show ?thesis
    by (intro conjI)
qed

text \<open>
  C4, as the spec words it, fails: two NextSong events of one user with the same largest
  \<open>ts\<close> give two rows for that user.
\<close>

theorem user_with_tied_maximum_has_two_rows:
  "length (filter (\<lambda>r. u_user_id r = Some ''u1'') (users_table (nextsong tied_maximum_example))) = 2"
  by code_simp

subsection \<open>The filter on \<open>page\<close>\<close>

text \<open>
  C3. The three tables of \<open>process_log_data\<close> are computed from the events whose page is
  exactly \<open>NextSong\<close>: dropping every other event from the input leaves all three outputs
  unchanged, and the time table, when it is produced, has one row per such event.
\<close>

theorem only_nextsong_events_contribute:
  "process_log_data sql layout log_df song_df out =
     process_log_data sql layout (filter (\<lambda>e. page e = Some ''NextSong'') log_df) song_df out \<and>
   (\<forall>rows. snd (fst (snd (process_log_data sql layout log_df song_df out))) = Inr rows \<longrightarrow>
      length rows = length (filter (\<lambda>e. page e = Some ''NextSong'') log_df))"
proof
  show "process_log_data sql layout log_df song_df out =
     process_log_data sql layout (filter (\<lambda>e. page e = Some ''NextSong'') log_df) song_df out"
    using nextsong_idem [of log_df] by (simp add: process_log_data_def nextsong_def)
next
  show "\<forall>rows. snd (fst (snd (process_log_data sql layout log_df song_df out))) = Inr rows \<longrightarrow>
      length rows = length (filter (\<lambda>e. page e = Some ''NextSong'') log_df)"
    by (auto simp: process_log_data_def time_table_def nextsong_def Let_def
          split: sum.splits dest: with_ts_ms_length)
qed

theorem only_nextsong_events_contribute_witness:
  "snd (fst (snd (process_log_data example_sql []
      [example_event ''u1'' 1000 ''free'' ''NextSong'',
       example_event ''u1'' 2000 ''free'' ''Login'',
       example_event ''u2'' 3000 ''paid'' ''NextSong''] ([] :: int song_record list) ''out/'')))
   = Inr [\<lparr>t_start_time = Some ''1'', t_hour = (), t_day = (), t_week = (), t_month = (),
            t_year = (), t_weekday = ()\<rparr>,
          \<lparr>t_start_time = Some ''3'', t_hour = (), t_day = (), t_week = (), t_month = (),
            t_year = (), t_weekday = ()\<rparr>] \<and>
   length [\<lparr>t_start_time = Some ''1'', t_hour = (), t_day = (), t_week = (), t_month = (),
            t_year = (), t_weekday = ()\<rparr>,
          \<lparr>t_start_time = Some ''3'', t_hour = (), t_day = (), t_week = (), t_month = (),
            t_year = (), t_weekday = ()\<rparr>] =
   length (filter (\<lambda>e. page e = Some ''NextSong'')
      [example_event ''u1'' 1000 ''free'' ''NextSong'',
       example_event ''u1'' 2000 ''free'' ''Login'',
       example_event ''u2'' 3000 ''paid'' ''NextSong''])"
proof -
  have run: "snd (fst (snd (process_log_data example_sql []
      [example_event ''u1'' 1000 ''free'' ''NextSong'',
       example_event ''u1'' 2000 ''free'' ''Login'',
       example_event ''u2'' 3000 ''paid'' ''NextSong''] ([] :: int song_record list) ''out/'')))
   = Inr [\<lparr>t_start_time = Some ''1'', t_hour = (), t_day = (), t_week = (), t_month = (),
            t_year = (), t_weekday = ()\<rparr>,
          \<lparr>t_start_time = Some ''3'', t_hour = (), t_day = (), t_week = (), t_month = (),
            t_year = (), t_weekday = ()\<rparr>]"
    by code_simp
  from only_nextsong_events_contribute [of example_sql "[]" _ "[] :: int song_record list" "''out/''"]
    run show ?thesis
    by blast
qed

subsection \<open>The songplays fact table\<close>

text \<open>
  C2, as the code has it. When every NextSong event carries a \<open>ts\<close> the fact table is
  produced, and it has one row for every pair of an event and a song record matching it,
  and one row for every event without a match: the sum over the events of
  \<open>max 1 (number of matching song records)\<close>. So it has at least as many rows as there
  are NextSong events, and exactly as many when no event matches two song records.
\<close>

theorem songplays_row_count:
  assumes "\<forall>e \<in> set (nextsong log_df). ts e \<noteq> None"
  shows "\<exists>rows. songplays_table sql layout (nextsong log_df) song_df = Inr rows \<and>
     length rows = sum_list (map (\<lambda>e. max 1 (length (filter (\<lambda>s.
            song e \<noteq> None \<and> song e = title s \<and> artist e \<noteq> None \<and> artist e = artist_name s) song_df)))
          (nextsong log_df)) \<and>
     length (nextsong log_df) \<le> length rows \<and>
     ((\<forall>e \<in> set (nextsong log_df). length (filter (\<lambda>s.
            song e \<noteq> None \<and> song e = title s \<and> artist e \<noteq> None \<and> artist e = artist_name s) song_df) \<le> 1)
        \<longrightarrow> length rows = length (nextsong log_df))"
proof -
  from with_ts_ms_total [OF assms] obtain rws where rws: "with_ts_ms (nextsong log_df) = Inr rws"
    by blast
  then obtain rows where rows: "songplays_table sql layout (nextsong log_df) song_df = Inr rows"
    by (simp add: songplays_table_def)
  note len = length_songplays [OF rws rows]
  have "length (nextsong log_df) \<le> length rows"
    unfolding len by (rule sum_list_ge_length)
  moreover have "length rows = length (nextsong log_df)"
    if "\<forall>e \<in> set (nextsong log_df). length (filter (\<lambda>s.
            song e \<noteq> None \<and> song e = title s \<and> artist e \<noteq> None \<and> artist e = artist_name s) song_df) \<le> 1"
    unfolding len using that by (rule sum_list_eq_length)
  ultimately show ?thesis
    using rows len by blast
qed

theorem songplays_row_count_witness:
  "map ts (nextsong five_plays_example) = [Some 1000, Some 2000, Some 3000, Some 4000, Some 5000] \<and>
   map_sum id (map f_song_id)
     (songplays_table example_sql [2] (nextsong five_plays_example) two_songs_example) =
     Inr [Some ''S1'', Some ''S2'', None, None, None] \<and>
   (\<exists>rows. songplays_table example_sql [2] (nextsong five_plays_example) two_songs_example = Inr rows \<and>
     length rows = sum_list (map (\<lambda>e. max 1 (length (filter (\<lambda>s.
            song e \<noteq> None \<and> song e = title s \<and> artist e \<noteq> None \<and> artist e = artist_name s)
              two_songs_example)))
          (nextsong five_plays_example)) \<and>
     length (nextsong five_plays_example) \<le> length rows \<and>
     ((\<forall>e \<in> set (nextsong five_plays_example). length (filter (\<lambda>s.
            song e \<noteq> None \<and> song e = title s \<and> artist e \<noteq> None \<and> artist e = artist_name s)
              two_songs_example) \<le> 1)
        \<longrightarrow> length rows = length (nextsong five_plays_example)))"
proof -
  have h: "\<forall>e \<in> set (nextsong five_plays_example). ts e \<noteq> None"
    by code_simp
  have run: "map_sum id (map f_song_id)
     (songplays_table example_sql [2] (nextsong five_plays_example) two_songs_example) =
     Inr [Some ''S1'', Some ''S2'', None, None, None]"
    by code_simp
  have tss: "map ts (nextsong five_plays_example) =
      [Some 1000, Some 2000, Some 3000, Some 4000, Some 5000]"
    by code_simp
  from songplays_row_count
      [where sql = example_sql and layout = "[2]" and song_df = two_songs_example, OF h] tss run
  show ?thesis
    by (intro conjI)
qed

text \<open>
  C2, as the spec words it, fails: one NextSong event whose title and artist name match
  two song records gives two fact rows.
\<close>

theorem one_event_two_matching_songs_two_rows:
  "map_sum id (map f_song_id)
     (songplays_table example_sql [] (nextsong [example_event ''u1'' 1000 ''free'' ''NextSong''])
        [example_song ''S1'' ''Song A'' ''Artist A'', example_song ''S2'' ''Song A'' ''Artist A'']) =
     Inr [Some ''S1'', Some ''S2''] \<and>
   length (nextsong [example_event ''u1'' 1000 ''free'' ''NextSong'']) = 1"
  by code_simp

text \<open>
  C8. A NextSong event whose song and artist equal the title and artist name of no song
  record does not fail the join: the fact table is produced (provided every event carries
  a \<open>ts\<close>, as \<open>get_timestamp\<close> needs) and holds a row for the event with null \<open>song_id\<close>
  and \<open>artist_id\<close> and every other column computed from the event as usual.
\<close>

theorem unmatched_event_keeps_its_row:
  fixes song_df :: "'f song_record list"
  assumes "e \<in> set (nextsong log_df)"
    and "\<forall>s \<in> set song_df. \<not> (song e \<noteq> None \<and> song e = title s \<and>
                               artist e \<noteq> None \<and> artist e = artist_name s)"
    and "\<forall>e' \<in> set (nextsong log_df). ts e' \<noteq> None"
  shows "\<exists>rows i v. songplays_table sql layout (nextsong log_df) song_df = Inr rows \<and>
     udf get_timestamp (ts e) = Inr v \<and>
     \<lparr>f_songplay_id = i, f_start_time = from_unixtime sql v, f_user_id = userId e,
      f_level = level e, f_song_id = None, f_artist_id = None, f_session_id = sessionId e,
      f_location = location e, f_user_agent = userAgent e,
      f_year = year_of sql (from_unixtime sql v), f_month = month sql (from_unixtime sql v)\<rparr>
       \<in> set rows"
proof -
  from with_ts_ms_total [OF assms(3)] obtain rws where rws: "with_ts_ms (nextsong log_df) = Inr rws"
    by blast
  from with_ts_ms_member [OF rws assms(1)] obtain v where
    v: "udf get_timestamp (ts e) = Inr v" "(e, v) \<in> set rws"
    by blast
  let ?joined = "left_join join_cond rws song_df"
  let ?ids = "monotonically_increasing_id (partitions layout ?joined)"
  have "filter (join_cond (e, v)) song_df = []"
    using assms(2) by (simp add: join_cond_def filter_empty_conv)
  with v(2) have "((e, v), None :: 'f song_record option) \<in> set ?joined"
    by (rule left_join_unmatched)
  then have "((e, v), None :: 'f song_record option) \<in> set (map snd ?ids)"
    by (simp only: monotonically_increasing_id_snd concat_partitions)
  then obtain i where i: "(i, (e, v), None :: 'f song_record option) \<in> set ?ids"
    by auto
  have "songplays_row_of sql i e v (None :: 'f song_record option) \<in>
      set (map (\<lambda>(i, (e, v), so). songplays_row_of sql i e v so) ?ids)"
    unfolding set_map using i by (intro image_eqI [where x = "(i, (e, v), None)"]) simp_all
  then have "songplays_row_of sql i e v (None :: 'f song_record option) \<in> set (projr (songplays_table sql layout (nextsong log_df) song_df))"
    by (simp add: songplays_table_rows [OF rws])
  moreover have "songplays_table sql layout (nextsong log_df) song_df =
      Inr (projr (songplays_table sql layout (nextsong log_df) song_df))"
    by (simp add: songplays_table_rows [OF rws])
  ultimately show ?thesis
    using v(1) by (auto simp: songplays_row_of_def Let_def)
qed

theorem unmatched_event_keeps_its_row_witness:
  "example_play ''song a'' ''Artist A'' 3000 \<in> set (nextsong five_plays_example) \<and>
   filter (\<lambda>s. song (example_play ''song a'' ''Artist A'' 3000) \<noteq> None \<and>
         song (example_play ''song a'' ''Artist A'' 3000) = title s \<and>
         artist (example_play ''song a'' ''Artist A'' 3000) \<noteq> None \<and>
         artist (example_play ''song a'' ''Artist A'' 3000) = artist_name s) two_songs_example = [] \<and>
   map ts (nextsong five_plays_example) = [Some 1000, Some 2000, Some 3000, Some 4000, Some 5000] \<and>
   (\<exists>rows i v.
     songplays_table example_sql [2] (nextsong five_plays_example) two_songs_example = Inr rows \<and>
     udf get_timestamp (ts (example_play ''song a'' ''Artist A'' 3000)) = Inr v \<and>
     \<lparr>f_songplay_id = i, f_start_time = from_unixtime example_sql v,
      f_user_id = userId (example_play ''song a'' ''Artist A'' 3000),
      f_level = level (example_play ''song a'' ''Artist A'' 3000),
      f_song_id = None, f_artist_id = None,
      f_session_id = sessionId (example_play ''song a'' ''Artist A'' 3000),
      f_location = location (example_play ''song a'' ''Artist A'' 3000),
      f_user_agent = userAgent (example_play ''song a'' ''Artist A'' 3000),
      f_year = year_of example_sql (from_unixtime example_sql v),
      f_month = month example_sql (from_unixtime example_sql v)\<rparr> \<in> set rows)"
proof -
  have h1: "example_play ''song a'' ''Artist A'' 3000 \<in> set (nextsong five_plays_example)"
    by code_simp
  have h2: "\<forall>s \<in> set two_songs_example.
      \<not> (song (example_play ''song a'' ''Artist A'' 3000) \<noteq> None \<and>
         song (example_play ''song a'' ''Artist A'' 3000) = title s \<and>
         artist (example_play ''song a'' ''Artist A'' 3000) \<noteq> None \<and>
         artist (example_play ''song a'' ''Artist A'' 3000) = artist_name s)"
    by code_simp
  have h3: "\<forall>e' \<in> set (nextsong five_plays_example). ts e' \<noteq> None"
    by code_simp
  have nomatch: "filter (\<lambda>s. song (example_play ''song a'' ''Artist A'' 3000) \<noteq> None \<and>
         song (example_play ''song a'' ''Artist A'' 3000) = title s \<and>
         artist (example_play ''song a'' ''Artist A'' 3000) \<noteq> None \<and>
         artist (example_play ''song a'' ''Artist A'' 3000) = artist_name s) two_songs_example = []"
    by code_simp
  have tss: "map ts (nextsong five_plays_example) =
      [Some 1000, Some 2000, Some 3000, Some 4000, Some 5000]"
    by code_simp
  from unmatched_event_keeps_its_row
      [where sql = example_sql and layout = "[2]", OF h1 h2 h3] h1 nomatch tss
  show ?thesis
    by (intro conjI)
qed

text \<open>
  C7. The \<open>songplay_id\<close> values of one fact table are pairwise distinct, under the
  assumption Spark documents for \<open>monotonically_increasing_id\<close>: the frame has at most
  \<open>2 ^ 31\<close> partitions and no partition holds more than \<open>2 ^ 33\<close> rows.
\<close>

theorem songplay_ids_distinct:
  assumes "songplays_table sql layout (nextsong log_df) song_df = Inr rows"
    and "length layout < 2 ^ 31"
    and "\<forall>n \<in> set layout. n \<le> 2 ^ 33"
    and "length rows \<le> sum_list layout + 2 ^ 33"
  shows "distinct (map f_songplay_id rows)"
proof -
  from assms(1) obtain rws where rws: "with_ts_ms (nextsong log_df) = Inr rws"
    by (auto simp: songplays_table_def split: sum.splits)
  let ?parts = "partitions layout (left_join join_cond rws song_df)"
  have rows: "rows = map (\<lambda>(i, (e, v), so). songplays_row_of sql i e v so)
      (monotonically_increasing_id ?parts)"
    using assms(1) rws by (simp add: songplays_table_def)
  have ids: "map f_songplay_id rows = map fst (monotonically_increasing_id ?parts)"
    unfolding rows by (simp add: o_def case_prod_unfold songplays_row_of_def Let_def)
  have "length rows = length (map snd (monotonically_increasing_id ?parts))"
    unfolding rows by simp
  also have "\<dots> = length (left_join join_cond rws song_df)"
    by (simp only: monotonically_increasing_id_snd concat_partitions)
  finally have "length (left_join join_cond rws song_df) \<le> sum_list layout + 2 ^ 33"
    using assms(4) by simp
  with assms(3) have sz: "\<forall>part \<in> set ?parts. length part \<le> 2 ^ 33"
    by (rule partitions_sizes)
  have "0 + length ?parts \<le> 2 ^ 31"
    using assms(2) by (simp add: length_partitions)
  from distinct_ids [OF this sz] show ?thesis
    unfolding ids monotonically_increasing_id_def ids_of_partitions .
qed

theorem songplay_ids_distinct_witness:
  "songplays_table example_sql [2] (nextsong five_plays_example) two_songs_example =
     Inr (projr (songplays_table example_sql [2] (nextsong five_plays_example) two_songs_example)) \<and>
   length [2 :: nat] < 2 ^ 31 \<and>
   length (projr (songplays_table example_sql [2] (nextsong five_plays_example) two_songs_example))
     \<le> sum_list [2] + 2 ^ 33 \<and>
   map f_songplay_id
     (projr (songplays_table example_sql [2] (nextsong five_plays_example) two_songs_example)) =
     [0, 1, 8589934592, 8589934593, 8589934594] \<and>
   distinct (map f_songplay_id
     (projr (songplays_table example_sql [2] (nextsong five_plays_example) two_songs_example)))"
proof -
  have h1: "songplays_table example_sql [2] (nextsong five_plays_example) two_songs_example =
     Inr (projr (songplays_table example_sql [2] (nextsong five_plays_example) two_songs_example))"
    by code_simp
  have h2: "length [2 :: nat] < 2 ^ 31"
    by simp
  have h3: "\<forall>n \<in> set [2 :: nat]. n \<le> 2 ^ 33"
    by simp
  have len: "length (projr (songplays_table example_sql [2] (nextsong five_plays_example)
      two_songs_example)) = 5"
    by code_simp
  have h4: "length (projr (songplays_table example_sql [2] (nextsong five_plays_example)
      two_songs_example)) \<le> sum_list [2] + 2 ^ 33"
    unfolding len by simp
  have run: "map f_songplay_id
     (projr (songplays_table example_sql [2] (nextsong five_plays_example) two_songs_example)) =
     [0, 1, 8589934592, 8589934593, 8589934594]"
    by code_simp
  from songplay_ids_distinct [OF h1 h2 h3 h4] h1 h2 h4 run show ?thesis
    by (intro conjI)
qed

subsection \<open>Milliseconds to seconds\<close>

text \<open>
  C9, as the code has it. \<open>get_timestamp\<close> takes an integer and returns a string: the
  decimal digits of the quotient by 1000 truncated towards zero. This holds for every
  \<open>x\<close> of magnitude below \<open>1000 * 2 ^ 44\<close>, where the float division cannot round the
  quotient up to the next integer.
\<close>

theorem get_timestamp_truncates:
  assumes "\<bar>x\<bar> < 1000 * 2 ^ 44"
  shows "get_timestamp (PyInt x) = Inr (PyStr (py_str (sgn x * (\<bar>x\<bar> div 1000))))"
  using py_int_truediv_1000 [OF assms] by simp

theorem get_timestamp_truncates_witness:
  "\<bar>- 1999 :: int\<bar> < 1000 * 2 ^ 44 \<and>
   get_timestamp (PyInt (- 1999)) = Inr (PyStr ''-1'') \<and>
   get_timestamp (PyInt 1999) = Inr (PyStr ''1'')"
proof -
  have h1: "\<bar>- 1999 :: int\<bar> < 1000 * 2 ^ 44" and h2: "\<bar>1999 :: int\<bar> < 1000 * 2 ^ 44"
    by simp_all
  have s1: "py_str (sgn (- 1999) * (\<bar>- 1999\<bar> div 1000)) = ''-1''"
    by code_simp
  have s2: "py_str (sgn 1999 * (\<bar>1999\<bar> div 1000)) = ''1''"
    by code_simp
  from get_timestamp_truncates [OF h1] get_timestamp_truncates [OF h2] h1 show ?thesis
    unfolding s1 s2 by (intro conjI)
qed

text \<open>
  C9, as the spec words it, fails: the value returned is a string, not an integer.
\<close>

theorem get_timestamp_returns_a_string:
  "get_timestamp (PyInt 1542242205796) = Inr (PyStr ''1542242205'') \<and>
   get_timestamp (PyInt 1542242205796) \<noteq> Inr (PyInt 1542242205)"
  by (simp add: py_truediv_def rne_div_def Let_def py_str_def digit_chr_def)

text \<open>
  C10. The start time has whole-second granularity. For timestamps of magnitude below
  \<open>1000 * 2 ^ 44\<close> milliseconds, a range that holds every timestamp the engine's date
  functions support (years 0001 to 9999, from -62135596800000 to 253402300799999), two
  events whose \<open>ts\<close> agree after truncating division by 1000 get the same row of the time
  table, start time and calendar fields alike; and putting the \<open>ts\<close> of the one in place
  of the \<open>ts\<close> of the other, anywhere in the frame, changes neither the time table nor
  the fact table: the part of \<open>ts\<close> below the second cannot be read off the outputs.
\<close>

theorem start_time_whole_seconds:
  assumes "ts e1 = Some a" and "ts e2 = Some b"
    and "\<bar>a\<bar> < 1000 * 2 ^ 44" and "\<bar>b\<bar> < 1000 * 2 ^ 44"
    and "sgn a * (\<bar>a\<bar> div 1000) = sgn b * (\<bar>b\<bar> div 1000)"
  shows "time_table sql [e1] = time_table sql [e2] \<and>
     time_table sql (xs @ e1\<lparr>ts := Some b\<rparr> # ys) = time_table sql (xs @ e1 # ys) \<and>
     songplays_table sql layout (xs @ e1\<lparr>ts := Some b\<rparr> # ys) song_df =
       songplays_table sql layout (xs @ e1 # ys) song_df"
proof -
  have secs: "udf get_timestamp (Some b) = udf get_timestamp (Some a)"
    using py_int_truediv_1000 [OF assms(3)] py_int_truediv_1000 [OF assms(4)] assms(5)
    by (simp add: udf_get_timestamp_Some)
  have one: "time_table sql [e1] = time_table sql [e2]"
    using secs assms(1,2) by (simp add: time_table_def udf_get_timestamp_Some)
  have same: "list_all2 (\<lambda>e e'. e'\<lparr>ts := None\<rparr> = e\<lparr>ts := None\<rparr> \<and>
              udf get_timestamp (ts e') = udf get_timestamp (ts e)) zs zs" for zs
    by (rule list_all2_refl) simp
  have "list_all2 (\<lambda>e e'. e'\<lparr>ts := None\<rparr> = e\<lparr>ts := None\<rparr> \<and>
              udf get_timestamp (ts e') = udf get_timestamp (ts e))
          (xs @ e1 # ys) (xs @ e1\<lparr>ts := Some b\<rparr> # ys)"
  proof (rule list_all2_appendI)
    show "list_all2 (\<lambda>e e'. e'\<lparr>ts := None\<rparr> = e\<lparr>ts := None\<rparr> \<and>
              udf get_timestamp (ts e') = udf get_timestamp (ts e)) xs xs"
      by (rule same)
    show "list_all2 (\<lambda>e e'. e'\<lparr>ts := None\<rparr> = e\<lparr>ts := None\<rparr> \<and>
              udf get_timestamp (ts e') = udf get_timestamp (ts e))
            (e1 # ys) (e1\<lparr>ts := Some b\<rparr> # ys)"
      using secs assms(1) same [of ys] by simp
  qed
  from with_ts_ms_same_seconds [OF this]
  have "time_table sql (xs @ e1\<lparr>ts := Some b\<rparr> # ys) = time_table sql (xs @ e1 # ys)"
    and "songplays_table sql layout (xs @ e1\<lparr>ts := Some b\<rparr> # ys) song_df =
       songplays_table sql layout (xs @ e1 # ys) song_df"
    by (simp_all only: time_table_erased songplays_table_erased)
  with one show ?thesis
    by (intro conjI)
qed

theorem start_time_whole_seconds_witness:
  "ts (example_event ''u1'' 1542242205796 ''free'' ''NextSong'') = Some 1542242205796 \<and>
   ts (example_event ''u2'' 1542242205001 ''paid'' ''NextSong'') = Some 1542242205001 \<and>
   \<bar>1542242205796 :: int\<bar> < 1000 * 2 ^ 44 \<and>
   \<bar>1542242205001 :: int\<bar> < 1000 * 2 ^ 44 \<and>
   sgn 1542242205796 * (\<bar>1542242205796 :: int\<bar> div 1000) =
     sgn 1542242205001 * (\<bar>1542242205001\<bar> div 1000) \<and>
   time_table example_sql [example_event ''u1'' 1542242205796 ''free'' ''NextSong''] =
     Inr [\<lparr>t_start_time = Some ''1542242205'', t_hour = (), t_day = (), t_week = (),
            t_month = (), t_year = (), t_weekday = ()\<rparr>] \<and>
   time_table example_sql [example_event ''u1'' 1542242205796 ''free'' ''NextSong''] =
     time_table example_sql [example_event ''u2'' 1542242205001 ''paid'' ''NextSong''] \<and>
   time_table example_sql
     ([example_event ''u2'' 1542242205001 ''paid'' ''NextSong''] @
      (example_event ''u1'' 1542242205796 ''free'' ''NextSong'')\<lparr>ts := Some 1542242205001\<rparr> # []) =
   time_table example_sql
     ([example_event ''u2'' 1542242205001 ''paid'' ''NextSong''] @
      example_event ''u1'' 1542242205796 ''free'' ''NextSong'' # []) \<and>
   songplays_table example_sql [1]
     ([example_event ''u2'' 1542242205001 ''paid'' ''NextSong''] @
      (example_event ''u1'' 1542242205796 ''free'' ''NextSong'')\<lparr>ts := Some 1542242205001\<rparr> # [])
     two_songs_example =
   songplays_table example_sql [1]
     ([example_event ''u2'' 1542242205001 ''paid'' ''NextSong''] @
      example_event ''u1'' 1542242205796 ''free'' ''NextSong'' # [])
     two_songs_example"
proof -
  have h1: "ts (example_event ''u1'' 1542242205796 ''free'' ''NextSong'') = Some 1542242205796"
    by (simp add: example_event_def)
  have h2: "ts (example_event ''u2'' 1542242205001 ''paid'' ''NextSong'') = Some 1542242205001"
    by (simp add: example_event_def)
  have h3: "\<bar>1542242205796 :: int\<bar> < 1000 * 2 ^ 44"
    by simp
  have h4: "\<bar>1542242205001 :: int\<bar> < 1000 * 2 ^ 44"
    by simp
  have h5: "sgn 1542242205796 * (\<bar>1542242205796 :: int\<bar> div 1000) =
     sgn 1542242205001 * (\<bar>1542242205001\<bar> div 1000)"
    by simp
  have run: "time_table example_sql [example_event ''u1'' 1542242205796 ''free'' ''NextSong''] =
     Inr [\<lparr>t_start_time = Some ''1542242205'', t_hour = (), t_day = (), t_week = (),
            t_month = (), t_year = (), t_weekday = ()\<rparr>]"
    by (simp add: time_table_def udf_def py_truediv_def rne_div_def Let_def py_str_def
          digit_chr_def time_row_of_def example_sql_def example_event_def)
  note inst = start_time_whole_seconds
      [where sql = example_sql and layout = "[1]" and song_df = two_songs_example
         and xs = "[example_event ''u2'' 1542242205001 ''paid'' ''NextSong'']" and ys = "[]",
       OF h1 h2 h3 h4 h5]
  from h1 h2 h3 h4 h5 run inst [THEN conjunct1] inst [THEN conjunct2, THEN conjunct1]
    inst [THEN conjunct2, THEN conjunct2]
  show ?thesis
    by (intro conjI)
qed

text \<open>
  The bound is needed for the truncation to be exact. At 17592186044416999, far beyond
  every timestamp the engine's date functions support, the float quotient is
  17592186044417.0: the value of \<open>ts_ms\<close> is one more than the truncated quotient.
\<close>

lemma ts_ms_beyond_the_range:
  "udf get_timestamp (Some 17592186044416998) = Inr (Some ''17592186044416'') \<and>
   udf get_timestamp (Some 17592186044416999) = Inr (Some ''17592186044417'')"
  by (simp add: udf_def py_truediv_def rne_div_def Let_def py_str_def digit_chr_def)

subsection \<open>The write of \<open>dim_time\<close>\<close>

text \<open>
  C6. The code writes \<open>dim_time\<close> in overwrite mode without any \<open>partitionBy\<close>, whereas
  \<open>fact_songplays\<close> is written partitioned by year and month.
\<close>

theorem dim_time_written_unpartitioned:
  "w_partitionBy (fst (fst (snd (process_log_data sql layout log_df song_df out)))) = [] \<and>
   w_mode (fst (fst (snd (process_log_data sql layout log_df song_df out)))) = ''overwrite'' \<and>
   w_partitionBy (fst (snd (snd (process_log_data sql layout log_df song_df out)))) =
     [''year'', ''month'']"
  by (simp add: process_log_data_def dim_time_write_def fact_songplays_write_def Let_def)

end
